theory Spec2Isabelle
  imports Main
begin

section \<open>Data model\<close>

text \<open>
  Instants are milliseconds since the Unix epoch, as \<open>Date.getTime()\<close> returns them.
  Strings are lists of 8-bit characters.
\<close>

text \<open>\<open>calendar.ts\<close>, interface \<open>CalendarEvent\<close> (\<open>start\<close> and \<open>end\<close> are \<open>Date\<close> objects).\<close>

record CalendarEvent =
  ev_id :: string
  summary :: string
  ev_start :: int
  ev_end :: int
  calendarName :: string

text \<open>
  \<open>types.ts\<close>, interface \<open>GranolaDocument\<close>, with the four fields the scheduler reads.
  \<open>created_at\<close> stays the string the provider sent.
\<close>

record GranolaDocument =
  doc_id :: string
  title :: string
  created_at :: string
  updated_at :: string

text \<open>\<open>types.ts\<close>, interface \<open>MeetingData\<close>.\<close>

record MeetingData =
  m_id :: string
  m_title :: string
  createdAt :: string
  updatedAt :: string
  notesMarkdown :: string
  transcript :: string

text \<open>Everything that can be thrown on the paths modelled here.\<close>

datatype error =
    DbNotFound
  | QueryFailed
  | CopyFailed
  | JsonSyntaxError
  | ReadFailed
  | TypeError
  | WriteFailed
  | ProviderError
  | PipelineError

section \<open>Dedup store (\<open>state.ts\<close>)\<close>

text \<open>Interface \<open>State\<close>.\<close>

record State =
  processedIds :: "string list"
  lastPollAt :: string

text \<open>
  The backing file \<open>STATE_FILE\<close> as \<open>readState\<close> can meet it: not there
  (\<open>existsSync\<close> is false), there but \<open>readFileSync\<close> throws, there with a content
  that \<open>JSON.parse\<close> rejects, there with JSON that parses to a value without a
  \<open>processedIds\<close> property (\<open>null\<close>, \<open>{}\<close>, \<open>[]\<close>, a number), or there with the
  JSON text of a \<open>State\<close>. \<open>writable\<close> tells whether \<open>writeFileSync\<close> succeeds.
\<close>

datatype backing = Missing | Unreadable | Corrupt | Malformed | Stored State

text \<open>
  What \<open>JSON.parse\<close> hands back, which \<open>readState\<close> returns unchecked as a \<open>State\<close>:
  a value of that shape, or one on which reading \<open>state.processedIds.includes\<close> throws
  a \<open>TypeError\<close>.
\<close>

datatype parsed = NoProcessedIds | AsState State

record disk =
  stateFile :: backing
  writable :: bool

definition epochIso :: string where
  "epochIso = ''1970-01-01T00:00:00.000Z''"

definition emptyState :: State where
  "emptyState = \<lparr>processedIds = [], lastPollAt = epochIso\<rparr>"

text \<open>
  The \<open>try\<close> block of \<open>readState\<close>: \<open>readFileSync\<close>, then \<open>JSON.parse\<close>; either
  may throw.
\<close>

definition readAndParse :: "disk \<Rightarrow> error + parsed" where
  "readAndParse d =
     (case stateFile d of
        Missing \<Rightarrow> Inl ReadFailed
      | Unreadable \<Rightarrow> Inl ReadFailed
      | Corrupt \<Rightarrow> Inl JsonSyntaxError
      | Malformed \<Rightarrow> Inr NoProcessedIds
      | Stored s \<Rightarrow> Inr (AsState s))"

text \<open>
  \<open>readState\<close>: the check for the file, then the \<open>try\<close> block with its \<open>catch\<close>.
  The result is what the function returns or throws.
\<close>

definition readState :: "disk \<Rightarrow> error + parsed" where
  "readState d =
     (if stateFile d = Missing then Inr (AsState emptyState)
      else case readAndParse d of
        Inl e \<Rightarrow> Inr (AsState emptyState)
      | Inr v \<Rightarrow> Inr v)"

definition writeState :: "State \<Rightarrow> disk \<Rightarrow> error + disk" where
  "writeState s d = (if writable d then Inr (d\<lparr>stateFile := Stored s\<rparr>) else Inl WriteFailed)"

definition isProcessed :: "string \<Rightarrow> disk \<Rightarrow> error + bool" where
  "isProcessed meetingId d =
     (case readState d of
        Inl e \<Rightarrow> Inl e
      | Inr v \<Rightarrow>
          (case v of
             NoProcessedIds \<Rightarrow> Inl TypeError
           | AsState state \<Rightarrow> Inr (meetingId \<in> set (processedIds state))))"

text \<open>\<open>Array.prototype.slice(-n)\<close>: the last \<open>n\<close> elements, all of them when there are fewer.\<close>

definition slice_last :: "nat \<Rightarrow> 'a list \<Rightarrow> 'a list" where
  "slice_last n xs = drop (length xs - n) xs"

text \<open>\<open>markProcessed\<close>; \<open>stamp\<close> is \<open>new Date().toISOString()\<close>.\<close>

definition markProcessed :: "string \<Rightarrow> string \<Rightarrow> disk \<Rightarrow> error + disk" where
  "markProcessed stamp meetingId d =
     (case readState d of
        Inl e \<Rightarrow> Inl e
      | Inr v \<Rightarrow>
          (case v of
             NoProcessedIds \<Rightarrow> Inl TypeError
           | AsState state \<Rightarrow>
               if meetingId \<notin> set (processedIds state) then
                 let pushed = processedIds state @ [meetingId];
                     kept = (if length pushed > 500 then slice_last 500 pushed else pushed)
                 in writeState \<lparr>processedIds = kept, lastPollAt = stamp\<rparr> d
               else Inr d))"

definition resetState :: "disk \<Rightarrow> error + disk" where
  "resetState d = writeState emptyState d"

text \<open>The ids the store holds, as \<open>readState\<close> sees them; none when there is no list.\<close>

definition storedIds :: "disk \<Rightarrow> string list" where
  "storedIds d =
     (case readState d of
        Inl e \<Rightarrow> []
      | Inr v \<Rightarrow> (case v of NoProcessedIds \<Rightarrow> [] | AsState state \<Rightarrow> processedIds state))"

section \<open>Matcher (\<open>scheduler.ts\<close>, \<open>findMatchingDoc\<close>)\<close>

text \<open>
  \<open>String.prototype.toLowerCase\<close> and \<open>trim\<close> on 8-bit characters, read as the code
  units U+0000 to U+00FF: the letters A to Z and the Latin-1 capitals U+00C0 to U+00DE
  (the multiplication sign U+00D7 apart) are folded to the letter 32 places up, and the
  white space removed at both ends is tab, line feed, vertical tab, form feed, carriage
  return, space and no-break space.
\<close>

definition lowerChar :: "char \<Rightarrow> char" where
  "lowerChar c =
     (let n = of_char c :: nat
      in if (65 \<le> n \<and> n \<le> 90) \<or> (192 \<le> n \<and> n \<le> 222 \<and> n \<noteq> 215) then char_of (n + 32)
         else c)"

definition toLowerCase :: "string \<Rightarrow> string" where
  "toLowerCase s = map lowerChar s"

definition isSpace :: "char \<Rightarrow> bool" where
  "isSpace c = (let n = of_char c :: nat in (9 \<le> n \<and> n \<le> 13) \<or> n = 32 \<or> n = 160)"

definition trim :: "string \<Rightarrow> string" where
  "trim s = rev (dropWhile isSpace (rev (dropWhile isSpace s)))"

text \<open>\<open>hay.includes(needle)\<close>: \<open>needle\<close> occurs in \<open>hay\<close> as a contiguous run.\<close>

fun startsWith :: "string \<Rightarrow> string \<Rightarrow> bool" where
  "startsWith hay [] = True"
| "startsWith [] (c # cs) = False"
| "startsWith (h # hs) (c # cs) = (h = c \<and> startsWith hs cs)"

fun includes_str :: "string \<Rightarrow> string \<Rightarrow> bool" where
  "includes_str [] needle = (needle = [])"
| "includes_str (h # hs) needle = (startsWith (h # hs) needle \<or> includes_str hs needle)"

text \<open>
  \<open>new Date(s).getTime()\<close> is a parameter \<open>getTime\<close> of the matcher: \<open>None\<close> stands for
  \<open>NaN\<close>, the time of an invalid date. \<open>Math.abs(docTime - eventStart)\<close> is then \<open>NaN\<close>
  too, and every comparison with \<open>NaN\<close> is false.
\<close>

type_synonym dateParser = "string \<Rightarrow> int option"

definition timeDiff :: "dateParser \<Rightarrow> int \<Rightarrow> GranolaDocument \<Rightarrow> int option" where
  "timeDiff getTime eventStart doc =
     (case getTime (created_at doc) of
        None \<Rightarrow> None
      | Some docTime \<Rightarrow> Some \<bar>docTime - eventStart\<bar>)"

definition within :: "int \<Rightarrow> int option \<Rightarrow> bool" where
  "within bound diff = (case diff of None \<Rightarrow> False | Some x \<Rightarrow> x < bound)"

definition titleAgrees :: "string \<Rightarrow> GranolaDocument \<Rightarrow> bool" where
  "titleAgrees eventTitle doc =
     (let docTitle = trim (toLowerCase (title doc))
      in docTitle = eventTitle \<or> includes_str docTitle eventTitle \<or> includes_str eventTitle docTitle)"

definition titleMatches :: "dateParser \<Rightarrow> GranolaDocument list \<Rightarrow> CalendarEvent \<Rightarrow> GranolaDocument list" where
  "titleMatches getTime docs event =
     filter (\<lambda>doc.
        within (2 * 60 * 60 * 1000) (timeDiff getTime (ev_start event) doc) \<and>
        titleAgrees (trim (toLowerCase (summary event))) doc) docs"

definition timeCandidates :: "dateParser \<Rightarrow> GranolaDocument list \<Rightarrow> CalendarEvent \<Rightarrow> GranolaDocument list" where
  "timeCandidates getTime docs event =
     filter (\<lambda>doc. within (30 * 60 * 1000) (timeDiff getTime (ev_start event) doc)) docs"

text \<open>
  The comparator \<open>(a, b) => diffA - diffB\<close> orders by the difference; a \<open>NaN\<close> result
  counts as 0 for \<open>Array.prototype.sort\<close>, which is stable. \<open>sort_key\<close> is the stable
  insertion sort on that key.
\<close>

definition sortKey :: "dateParser \<Rightarrow> int \<Rightarrow> GranolaDocument \<Rightarrow> int" where
  "sortKey getTime eventStart doc =
     (case timeDiff getTime eventStart doc of None \<Rightarrow> 0 | Some x \<Rightarrow> x)"

definition byTimeDiff :: "dateParser \<Rightarrow> int \<Rightarrow> GranolaDocument list \<Rightarrow> GranolaDocument list" where
  "byTimeDiff getTime eventStart docs = sort_key (sortKey getTime eventStart) docs"

text \<open>\<open>xs[0]\<close>: \<open>undefined\<close> on the empty array.\<close>

definition first :: "'a list \<Rightarrow> 'a option" where
  "first xs = (case xs of [] \<Rightarrow> None | x # _ \<Rightarrow> Some x)"

definition findMatchingDoc :: "dateParser \<Rightarrow> GranolaDocument list \<Rightarrow> CalendarEvent \<Rightarrow> GranolaDocument option" where
  "findMatchingDoc getTime docs event =
     (let matches = titleMatches getTime docs event
      in if length matches > 0 then first (byTimeDiff getTime (ev_start event) matches)
         else first (byTimeDiff getTime (ev_start event) (timeCandidates getTime docs event)))"

section \<open>Event scheduler (\<open>scheduler.ts\<close>)\<close>

text \<open>\<open>config.ts\<close>, interface \<open>Config\<close>: the two durations; the scheduler reads the first.\<close>

record Config =
  delayAfterMeetingMs :: int
  calendarRefreshMs :: int

text \<open>
  A pending \<open>setTimeout\<close>: the delay passed to it and which of the two callbacks of
  \<open>scheduleProcessing\<close> it runs, with the event the closure captured. (The runtime
  runs a timer whose delay exceeds 2147483647 after 1 ms; the record keeps the argument.)
\<close>

datatype callback = Fire CalendarEvent | Retry CalendarEvent

record timer =
  delay :: int
  callback :: callback

text \<open>
  The mutable state: the module-level set \<open>scheduledEventIds\<close>, the dedup store's
  file, the pending timers in the order they were set, and the meetings handed to
  \<open>processMeeting\<close> so far.
\<close>

record scheduler =
  scheduledEventIds :: "string set"
  store :: disk
  timers :: "timer list"
  pipelineCalls :: "MeetingData list"

text \<open>
  What the outside answers while one callback runs: the clock (\<open>Date.now()\<close> and
  \<open>new Date().toISOString()\<close>), the date parser, the notes provider and the pipeline.
  A callback runs to its end before another one touches the state.
\<close>

record world =
  now :: int
  nowIso :: string
  getTime :: dateParser
  fetchDocuments :: "error + GranolaDocument list"
  fetchMeeting :: "GranolaDocument \<Rightarrow> error + MeetingData"
  processMeeting :: "MeetingData \<Rightarrow> error + unit"

text \<open>\<open>scheduleProcessing\<close> up to \<open>setTimeout\<close>; \<open>clock\<close> is \<open>Date.now()\<close>.\<close>

definition scheduleProcessing :: "Config \<Rightarrow> int \<Rightarrow> CalendarEvent \<Rightarrow> scheduler \<Rightarrow> error + scheduler" where
  "scheduleProcessing config clock event st =
     (if ev_id event \<in> scheduledEventIds st then Inr st
      else case isProcessed (ev_id event) (store st) of
        Inl e \<Rightarrow> Inl e
      | Inr processed \<Rightarrow>
          if processed then Inr st
          else
            let triggerAt = ev_end event + delayAfterMeetingMs config;
                delayMs = triggerAt - clock;
                effectiveDelay = max delayMs 30000
            in Inr (st\<lparr>scheduledEventIds := insert (ev_id event) (scheduledEventIds st),
                        timers := timers st @ [\<lparr>delay = effectiveDelay, callback = Fire event\<rparr>]\<rparr>))"

text \<open>
  The \<open>try\<close> block of the first timer callback. \<open>Inl (e, st')\<close> is a throw of \<open>e\<close> with
  the state as it is at that point, \<open>Inr st'\<close> a normal end or a \<open>return\<close>.
\<close>

definition fireTry :: "world \<Rightarrow> CalendarEvent \<Rightarrow> scheduler \<Rightarrow> (error \<times> scheduler) + scheduler" where
  "fireTry w event st =
     (case fetchDocuments w of
        Inl e \<Rightarrow> Inl (e, st)
      | Inr docs \<Rightarrow>
          (case findMatchingDoc (getTime w) docs event of
             None \<Rightarrow> Inr (st\<lparr>scheduledEventIds := scheduledEventIds st - {ev_id event}\<rparr>)
           | Some matchingDoc \<Rightarrow>
               (case isProcessed (doc_id matchingDoc) (store st) of
                  Inl e \<Rightarrow> Inl (e, st)
                | Inr docDone \<Rightarrow>
                    if docDone then
                      (case markProcessed (nowIso w) (ev_id event) (store st) of
                         Inl e \<Rightarrow> Inl (e, st)
                       | Inr d \<Rightarrow> Inr (st\<lparr>store := d\<rparr>))
                    else
                      (case fetchMeeting w matchingDoc of
                         Inl e \<Rightarrow> Inl (e, st)
                       | Inr meeting \<Rightarrow>
                           if notesMarkdown meeting = [] \<and> transcript meeting = [] then
                             Inr (st\<lparr>scheduledEventIds := scheduledEventIds st - {ev_id event},
                                      timers := timers st @ [\<lparr>delay = 2 * 60 * 1000, callback = Retry event\<rparr>]\<rparr>)
                           else
                             (let st1 = st\<lparr>pipelineCalls := pipelineCalls st @ [meeting]\<rparr>
                              in case processMeeting w meeting of
                                   Inl e \<Rightarrow> Inl (e, st1)
                                 | Inr u \<Rightarrow>
                                     (case markProcessed (nowIso w) (ev_id event) (store st1) of
                                        Inl e \<Rightarrow> Inl (e, st1)
                                      | Inr d1 \<Rightarrow>
                                          (case markProcessed (nowIso w) (doc_id matchingDoc) d1 of
                                             Inl e \<Rightarrow> Inl (e, st1\<lparr>store := d1\<rparr>)
                                           | Inr d2 \<Rightarrow> Inr (st1\<lparr>store := d2\<rparr>))))))))"

text \<open>
  The first timer callback: the \<open>try\<close> block and its \<open>catch\<close>. The result is how the
  callback's promise settles, \<open>Inl\<close> being a rejection.
\<close>

definition fire :: "world \<Rightarrow> CalendarEvent \<Rightarrow> scheduler \<Rightarrow> error + scheduler" where
  "fire w event st =
     (case fireTry w event st of
        Inr st' \<Rightarrow> Inr st'
      | Inl (e, st') \<Rightarrow> Inr (st'\<lparr>scheduledEventIds := scheduledEventIds st' - {ev_id event}\<rparr>))"

text \<open>
  The retry callback: untrack, then arm again with \<open>end\<close> set to the current time.
  \<open>new Date()\<close> here and \<open>Date.now()\<close> in \<open>scheduleProcessing\<close> read the same instant.
\<close>

definition retry :: "Config \<Rightarrow> world \<Rightarrow> CalendarEvent \<Rightarrow> scheduler \<Rightarrow> error + scheduler" where
  "retry config w event st =
     scheduleProcessing config (now w) (event\<lparr>ev_end := now w\<rparr>)
       (st\<lparr>scheduledEventIds := scheduledEventIds st - {ev_id event}\<rparr>)"

text \<open>The pending timer at position \<open>i\<close> elapses: it leaves the list and its callback runs.\<close>

definition elapse :: "Config \<Rightarrow> world \<Rightarrow> nat \<Rightarrow> scheduler \<Rightarrow> error + scheduler" where
  "elapse config w i st =
     (if i < length (timers st) then
        (let st0 = st\<lparr>timers := take i (timers st) @ drop (Suc i) (timers st)\<rparr>
         in case callback (timers st ! i) of
              Fire event \<Rightarrow> fire w event st0
            | Retry event \<Rightarrow> retry config w event st0)
      else Inr st)"

text \<open>
  A pending timer of either kind is a live scheduled task of its event. The invariant:
  no two pending timers belong to the same event id.
\<close>

fun taskId :: "callback \<Rightarrow> string" where
  "taskId (Fire event) = ev_id event"
| "taskId (Retry event) = ev_id event"

definition taskIds :: "timer list \<Rightarrow> string list" where
  "taskIds ts = map (\<lambda>t. taskId (callback t)) ts"

definition oneTaskPerId :: "scheduler \<Rightarrow> bool" where
  "oneTaskPerId st = distinct (taskIds (timers st))"

section \<open>Calendar source (\<open>calendar.ts\<close>)\<close>

definition APPLE_EPOCH_OFFSET :: int where
  "APPLE_EPOCH_OFFSET = 978307200"

definition toJsDate :: "int \<Rightarrow> int" where
  "toJsDate appleTimestamp = (appleTimestamp + APPLE_EPOCH_OFFSET) * 1000"

text \<open>A row of the query's JSON output (timestamps in whole seconds).\<close>

record Row =
  ROWID :: int
  ZSUMMARY :: string
  ZSTARTDATE :: int
  ZENDDATE :: int
  ZTITLE :: "string option"

datatype dbPath = GroupContainerDb | LegacyDb | TmpCopy

text \<open>
  The machine the calendar is read on: which of the two database files exist, what the
  \<open>sqlite3\<close> command answers for today's query on a database (it throws on a non-zero
  exit or a timeout), whether \<open>cp\<close> to the temporary copy succeeds, and \<open>JSON.parse\<close>
  on the query's output (\<open>None\<close> when it throws).
\<close>

record calendarHost =
  groupDbExists :: bool
  legacyDbExists :: bool
  sqlite3 :: "dbPath \<Rightarrow> error + string"
  cp :: "dbPath \<Rightarrow> error + unit"
  jsonParse :: "string \<Rightarrow> Row list option"

definition getDbPath :: "calendarHost \<Rightarrow> error + dbPath" where
  "getDbPath host =
     (if groupDbExists host then Inr GroupContainerDb
      else if legacyDbExists host then Inr LegacyDb
      else Inl DbNotFound)"

definition runQuery :: "calendarHost \<Rightarrow> dbPath \<Rightarrow> error + string" where
  "runQuery host path = (case sqlite3 host path of Inl e \<Rightarrow> Inl e | Inr out \<Rightarrow> Inr (trim out))"

text \<open>\<open>String(n)\<close> for an integer \<open>n\<close>.\<close>

fun digits :: "nat \<Rightarrow> string" where
  "digits n = (if n < 10 then [char_of (48 + n)] else digits (n div 10) @ [char_of (48 + n mod 10)])"

definition String_of :: "int \<Rightarrow> string" where
  "String_of n = (if n < 0 then CHR ''-'' # digits (nat (- n)) else digits (nat n))"

definition parseRows :: "calendarHost \<Rightarrow> string \<Rightarrow> error + CalendarEvent list" where
  "parseRows host raw =
     (if raw = [] then Inr []
      else case jsonParse host raw of
        None \<Rightarrow> Inl JsonSyntaxError
      | Some rows \<Rightarrow>
          Inr (map (\<lambda>row. \<lparr>ev_id = String_of (ROWID row), summary = ZSUMMARY row,
                 ev_start = toJsDate (ZSTARTDATE row), ev_end = toJsDate (ZENDDATE row),
                 calendarName = (case ZTITLE row of None \<Rightarrow> ''Unknown'' | Some t \<Rightarrow> t)\<rparr>) rows))"

definition queryEvents :: "calendarHost \<Rightarrow> dbPath \<Rightarrow> error + CalendarEvent list" where
  "queryEvents host path =
     (case runQuery host path of Inl e \<Rightarrow> Inl e | Inr raw \<Rightarrow> parseRows host raw)"

text \<open>
  \<open>fetchTodaysEvents\<close>: \<open>getDbPath\<close> is called before the \<open>try\<close>; the result is how the
  promise settles, \<open>Inl\<close> being a rejection.
\<close>

definition fetchTodaysEvents :: "calendarHost \<Rightarrow> error + CalendarEvent list" where
  "fetchTodaysEvents host =
     (case getDbPath host of
        Inl e \<Rightarrow> Inl e
      | Inr path \<Rightarrow>
          (case queryEvents host path of
             Inr events \<Rightarrow> Inr events
           | Inl e \<Rightarrow>
               (case cp host path of
                  Inl fallbackErr \<Rightarrow> Inr []
                | Inr u \<Rightarrow>
                    (case queryEvents host TmpCopy of
                       Inr events \<Rightarrow> Inr events
                     | Inl fallbackErr \<Rightarrow> Inr []))))"

section \<open>Refresh loop (\<open>scheduler.ts\<close>, \<open>refreshSchedule\<close>)\<close>

text \<open>
  The \<open>for\<close> loop over the events: \<open>scheduleProcessing\<close> for each, stopping at the
  first throw with the state as it is then. One reading of the clock serves the whole
  refresh.
\<close>

fun armAll :: "Config \<Rightarrow> int \<Rightarrow> CalendarEvent list \<Rightarrow> scheduler \<Rightarrow> (error \<times> scheduler) + scheduler" where
  "armAll config clock [] st = Inr st"
| "armAll config clock (event # events) st =
     (case scheduleProcessing config clock event st of
        Inl e \<Rightarrow> Inl (e, st)
      | Inr st' \<Rightarrow> armAll config clock events st')"

text \<open>What a refresh writes to the console last: which of its three ends it took.\<close>

datatype refreshLog = NoMeetings | Listed nat | RefreshFailed error

text \<open>
  \<open>refreshSchedule\<close>: the \<open>try\<close> block and its \<open>catch\<close>, which logs the error. The
  result is how the promise settles, with the log line and the state.
\<close>

definition refreshSchedule :: "Config \<Rightarrow> int \<Rightarrow> calendarHost \<Rightarrow> scheduler \<Rightarrow> error + (refreshLog \<times> scheduler)" where
  "refreshSchedule config clock host st =
     (case fetchTodaysEvents host of
        Inl err \<Rightarrow> Inr (RefreshFailed err, st)
      | Inr events \<Rightarrow>
          if length events = 0 then Inr (NoMeetings, st)
          else
            (case armAll config clock events st of
               Inl (err, st') \<Rightarrow> Inr (RefreshFailed err, st')
             | Inr st' \<Rightarrow> Inr (Listed (length events), st')))"

text \<open>A run of the event loop: the listed timers elapse one after the other.\<close>

fun run :: "Config \<Rightarrow> (world \<times> nat) list \<Rightarrow> scheduler \<Rightarrow> error + scheduler" where
  "run config [] st = Inr st"
| "run config ((w, i) # rest) st =
     (case elapse config w i st of Inl e \<Rightarrow> Inl e | Inr st' \<Rightarrow> run config rest st')"

section \<open>Concrete inputs\<close>

text \<open>
  The inputs of the examples: an event starting at instant 0 and ending an hour later,
  a date parser that knows a few labelled instants, the default configuration, and
  notes providers that answer with a document that is never ready, or with one that is
  ready while the pipeline fails.
\<close>

definition sprintEvent :: CalendarEvent where
  "sprintEvent = \<lparr>ev_id = ''101'', summary = ''Sprint Planning'', ev_start = 0,
      ev_end = 3600000, calendarName = ''Work''\<rparr>"

definition minuteClock :: dateParser where
  "minuteClock = map_of [(''T+10m'', 600000), (''T+5m'', 300000), (''T+20m'', 1200000),
      (''T+40m'', 2400000), (''T-10m'', - 600000), (''T+2h'', 7200000), (''T+30m'', 1800000)]"

definition mkDoc :: "string \<Rightarrow> string \<Rightarrow> string \<Rightarrow> GranolaDocument" where
  "mkDoc i t c = \<lparr>doc_id = i, title = t, created_at = c, updated_at = c\<rparr>"

definition defaultConfig :: Config where
  "defaultConfig = \<lparr>delayAfterMeetingMs = 5 * 60 * 1000, calendarRefreshMs = 30 * 60 * 1000\<rparr>"

definition idle :: scheduler where
  "idle = \<lparr>scheduledEventIds = {}, store = \<lparr>stateFile = Missing, writable = True\<rparr>,
      timers = [], pipelineCalls = []\<rparr>"

definition meetingOf :: "string \<Rightarrow> string \<Rightarrow> GranolaDocument \<Rightarrow> MeetingData" where
  "meetingOf notes script doc = \<lparr>m_id = doc_id doc, m_title = title doc, createdAt = created_at doc,
      updatedAt = updated_at doc, notesMarkdown = notes, transcript = script\<rparr>"

definition notReadyWorld :: "int \<Rightarrow> world" where
  "notReadyWorld clock = \<lparr>now = clock, nowIso = ''later'', getTime = minuteClock,
      fetchDocuments = Inr [mkDoc ''d1'' ''sprint planning'' ''T+10m''],
      fetchMeeting = (\<lambda>doc. Inr (meetingOf [] [] doc)),
      processMeeting = (\<lambda>meeting. Inr ())\<rparr>"

definition failingWorld :: "int \<Rightarrow> world" where
  "failingWorld clock = \<lparr>now = clock, nowIso = ''later'', getTime = minuteClock,
      fetchDocuments = Inr [mkDoc ''d1'' ''sprint planning'' ''T+10m''],
      fetchMeeting = (\<lambda>doc. Inr (meetingOf ''# Notes'' [] doc)),
      processMeeting = (\<lambda>meeting. Inl PipelineError)\<rparr>"

definition tracked101 :: scheduler where
  "tracked101 = \<lparr>scheduledEventIds = {''101''}, store = \<lparr>stateFile = Missing, writable = True\<rparr>,
      timers = [], pipelineCalls = []\<rparr>"

definition armedOnce :: scheduler where
  "armedOnce = \<lparr>scheduledEventIds = {''101''}, store = \<lparr>stateFile = Missing, writable = True\<rparr>,
      timers = [\<lparr>delay = 3900000, callback = Fire sprintEvent\<rparr>], pipelineCalls = []\<rparr>"

text \<open>A store that is full: 500 distinct ids, the oldest first.\<close>

definition tally :: "nat \<Rightarrow> string" where
  "tally n = replicate (Suc n) CHR ''i''"

definition fullDisk :: disk where
  "fullDisk = \<lparr>stateFile = Stored \<lparr>processedIds = map tally [0..<500], lastPollAt = ''t0''\<rparr>,
      writable = True\<rparr>"

text \<open>
  A process started at 360000 with a calendar that lists the one event: the scheduler
  after the first refresh, after the first callback found the notes not ready at
  3900000, and after the third refresh at 3960000, in the two minutes before the retry.
\<close>

definition armedLate :: scheduler where
  "armedLate = \<lparr>scheduledEventIds = {''101''}, store = \<lparr>stateFile = Missing, writable = True\<rparr>,
      timers = [\<lparr>delay = 3540000, callback = Fire sprintEvent\<rparr>], pipelineCalls = []\<rparr>"

definition retryPending :: scheduler where
  "retryPending = \<lparr>scheduledEventIds = {}, store = \<lparr>stateFile = Missing, writable = True\<rparr>,
      timers = [\<lparr>delay = 120000, callback = Retry sprintEvent\<rparr>], pipelineCalls = []\<rparr>"

definition bothPending :: scheduler where
  "bothPending = \<lparr>scheduledEventIds = {''101''}, store = \<lparr>stateFile = Missing, writable = True\<rparr>,
      timers = [\<lparr>delay = 120000, callback = Retry sprintEvent\<rparr>,
                \<lparr>delay = 30000, callback = Fire sprintEvent\<rparr>], pipelineCalls = []\<rparr>"

definition sprintRow :: Row where
  "sprintRow = \<lparr>ROWID = 101, ZSUMMARY = ''Sprint Planning'', ZSTARTDATE = - 978307200,
      ZENDDATE = - 978303600, ZTITLE = Some ''Work''\<rparr>"

definition workCalendar :: calendarHost where
  "workCalendar = \<lparr>groupDbExists = True, legacyDbExists = False,
      sqlite3 = (\<lambda>path. Inr ''[sprint row]''), cp = (\<lambda>path. Inr ()),
      jsonParse = (\<lambda>raw. if raw = ''[sprint row]'' then Some [sprintRow] else None)\<rparr>"

definition noCalendar :: calendarHost where
  "noCalendar = \<lparr>groupDbExists = False, legacyDbExists = False,
      sqlite3 = (\<lambda>path. Inl QueryFailed), cp = (\<lambda>path. Inl CopyFailed),
      jsonParse = (\<lambda>raw. None)\<rparr>"

definition lockedCalendar :: calendarHost where
  "lockedCalendar = \<lparr>groupDbExists = True, legacyDbExists = False,
      sqlite3 = (\<lambda>path. Inl QueryFailed), cp = (\<lambda>path. Inl CopyFailed),
      jsonParse = (\<lambda>raw. None)\<rparr>"

section \<open>Properties of the dedup store\<close>

lemma readState_total: "\<exists>s. readState d = Inr s"
  by (simp add: readState_def split: sum.split)

lemma storedIds_written:
  "writeState s d = Inr d' \<Longrightarrow> storedIds d' = processedIds s"
  by (auto simp: writeState_def storedIds_def readState_def readAndParse_def split: if_splits)

lemma length_slice_last: "length (slice_last n xs) \<le> n"
  by (simp add: slice_last_def)

lemma readState_shapes:
  "readState d = Inr NoProcessedIds \<longleftrightarrow> stateFile d = Malformed"
  by (auto simp: readState_def readAndParse_def split: backing.splits)

lemma isProcessed_storedIds:
  "stateFile d \<noteq> Malformed \<Longrightarrow> isProcessed i d = Inr (i \<in> set (storedIds d))"
  using readState_total [of d] readState_shapes [of d]
  by (auto simp: isProcessed_def storedIds_def split: parsed.splits)

text \<open>
  Where failing open ends: on a file whose JSON has no \<open>processedIds\<close>, the store's
  two operations throw.
\<close>

lemma isProcessed_malformed:
  "stateFile d = Malformed \<Longrightarrow>
     isProcessed i d = Inl TypeError \<and> markProcessed stamp i d = Inl TypeError"
  by (simp add: isProcessed_def markProcessed_def readState_def readAndParse_def)

lemma markProcessed_present:
  "meetingId \<in> set (storedIds d) \<Longrightarrow> markProcessed stamp meetingId d = Inr d"
  using readState_total [of d]
  by (auto simp: markProcessed_def storedIds_def split: parsed.splits)

lemma markProcessed_absent:
  assumes "meetingId \<notin> set (storedIds d)" and "markProcessed stamp meetingId d = Inr d'"
  shows "storedIds d' = slice_last 500 (storedIds d @ [meetingId])"
proof -
  obtain s where s: "readState d = Inr (AsState s)"
    using assms(2) readState_total [of d]
    by (auto simp: markProcessed_def split: parsed.splits)
  have ids: "storedIds d = processedIds s" by (simp add: storedIds_def s)
  let ?pushed = "processedIds s @ [meetingId]"
  let ?kept = "if length ?pushed > 500 then slice_last 500 ?pushed else ?pushed"
  have "writeState \<lparr>processedIds = ?kept, lastPollAt = stamp\<rparr> d = Inr d'"
    using assms s ids by (simp add: markProcessed_def Let_def)
  then have "storedIds d' = ?kept" by (simp add: storedIds_written)
  moreover have "?kept = slice_last 500 ?pushed" by (simp add: slice_last_def)
  ultimately show ?thesis by (simp add: ids)
qed

lemma tally_inj: "tally m = tally n \<longleftrightarrow> m = n"
  by (auto simp: tally_def dest: arg_cong [where f = length])

lemma tally_window: "drop (Suc 0) (map tally [0..<500] @ [tally 500]) = map tally [1..<501]"
proof -
  have a: "[0..<Suc 500] = [0..<500] @ [500]" by (rule upt_Suc_append) simp
  have "map tally [0..<500] @ [tally 500] = map tally ([0..<500] @ [500])"
    by (simp only: map_append list.map)
  also have "\<dots> = map tally [0..<Suc 500]" by (simp only: a)
  finally have "drop (Suc 0) (map tally [0..<500] @ [tally 500]) = map tally (drop (Suc 0) [0..<Suc 500])"
    by (simp only: drop_map)
  also have "drop (Suc 0) [0..<Suc 500] = [0 + Suc 0..<Suc 500]" by (rule drop_upt)
  also have "0 + Suc 0 = (1::nat)" by simp
  also have "Suc 500 = 501" by simp
  finally show ?thesis .
qed

text \<open>
  Claim C6. A successful \<open>markProcessed\<close> leaves at most 500 ids in the store whenever
  the store held at most 500 before or the id is new. A new id is appended and the list
  is cut from the front, so the oldest ids go first. Marking an id that is present
  changes nothing, and so does marking the same id a second time.
\<close>

theorem markProcessed_bounded:
  assumes "markProcessed stamp meetingId d = Inr d'"
  shows "(length (storedIds d) \<le> 500 \<or> meetingId \<notin> set (storedIds d) \<longrightarrow> length (storedIds d') \<le> 500)
       \<and> (meetingId \<in> set (storedIds d) \<longrightarrow> d' = d)
       \<and> (meetingId \<notin> set (storedIds d) \<longrightarrow>
            storedIds d' = drop (length (storedIds d) + 1 - 500) (storedIds d @ [meetingId]))
       \<and> meetingId \<in> set (storedIds d')
       \<and> markProcessed stamp' meetingId d' = Inr d'"
proof (cases "meetingId \<in> set (storedIds d)")
  case True
  then have "d' = d" using assms by (simp add: markProcessed_present)
  then show ?thesis using True by (simp add: markProcessed_present)
next
  case False
  have eq: "storedIds d' = slice_last 500 (storedIds d @ [meetingId])"
    using False assms by (rule markProcessed_absent)
  have mem: "meetingId \<in> set (storedIds d')"
    by (simp add: eq slice_last_def)
  show ?thesis using False mem eq length_slice_last [of 500 "storedIds d @ [meetingId]"]
    by (simp add: markProcessed_present slice_last_def)
qed

theorem markProcessed_bounded_witness:
  "length (storedIds fullDisk) = 500 \<and> tally 500 \<notin> set (storedIds fullDisk)
   \<and> storedIds fullDisk = map tally [0..<500]
   \<and> (\<exists>d'. markProcessed ''t1'' (tally 500) fullDisk = Inr d'
        \<and> length (storedIds d') = 500
        \<and> storedIds d' = map tally [1..<501]
        \<and> markProcessed ''t2'' (tally 500) d' = Inr d')"
proof -
  let ?d' = "\<lparr>stateFile = Stored \<lparr>processedIds = map tally [1..<501], lastPollAt = ''t1''\<rparr>, writable = True\<rparr>"
  have ids: "storedIds fullDisk = map tally [0..<500]"
    by (simp add: storedIds_def readState_def readAndParse_def fullDisk_def)
  have new: "tally 500 \<notin> set (storedIds fullDisk)"
    by (auto simp: ids tally_inj)
  have "markProcessed ''t1'' (tally 500) fullDisk =
     Inr \<lparr>stateFile = Stored \<lparr>processedIds = drop (Suc 0) (map tally [0..<500] @ [tally 500]),
             lastPollAt = ''t1''\<rparr>, writable = True\<rparr>"
    using new by (simp add: markProcessed_def readState_def readAndParse_def writeState_def fullDisk_def
        slice_last_def storedIds_def)
  then have m: "markProcessed ''t1'' (tally 500) fullDisk = Inr ?d'" by (simp only: tally_window)
  have ids': "storedIds ?d' = map tally [1..<501]" by (simp add: storedIds_def readState_def readAndParse_def)
  have "length (storedIds ?d') \<le> 500 \<and> markProcessed ''t2'' (tally 500) ?d' = Inr ?d'"
    using markProcessed_bounded [OF m, of "''t2''"] new by blast
  then show ?thesis using m ids ids' new by simp
qed

text \<open>
  Claim C8. When the backing file cannot be read or does not parse, the read throws
  inside \<open>readState\<close>, which answers with the empty state; \<open>isProcessed\<close> then
  returns false for every id and does not throw.
\<close>

theorem isProcessed_fails_open:
  "stateFile d = Unreadable \<or> stateFile d = Corrupt \<Longrightarrow>
     (\<exists>e. readAndParse d = Inl e) \<and> readState d = Inr (AsState emptyState)
     \<and> isProcessed meetingId d = Inr False"
  by (auto simp: isProcessed_def readState_def readAndParse_def emptyState_def)

theorem isProcessed_fails_open_witness:
  "isProcessed ''evt-1'' \<lparr>stateFile = Corrupt, writable = True\<rparr> = Inr False
   \<and> isProcessed ''evt-1'' \<lparr>stateFile = Unreadable, writable = False\<rparr> = Inr False"
  using isProcessed_fails_open [of "\<lparr>stateFile = Corrupt, writable = True\<rparr>" "''evt-1''"]
    isProcessed_fails_open [of "\<lparr>stateFile = Unreadable, writable = False\<rparr>" "''evt-1''"]
  by simp

section \<open>Properties of the matcher\<close>

lemma first_Some_iff: "first xs = Some x \<longleftrightarrow> (\<exists>rest. xs = x # rest)"
  by (cases xs) (auto simp: first_def)

lemma first_None_iff: "first xs = None \<longleftrightarrow> xs = []"
  by (cases xs) (auto simp: first_def)

lemma first_sort_key_min:
  assumes "first (sort_key f xs) = Some x"
  shows "x \<in> set xs \<and> (\<forall>y\<in>set xs. f x \<le> f y)"
proof -
  obtain rest where r: "sort_key f xs = x # rest"
    using assms by (auto simp: first_Some_iff)
  have "set (x # rest) = set xs" using r set_sort [of f xs] by simp
  moreover have "sorted (map f (x # rest))" using r sorted_sort_key [of f xs] by simp
  ultimately show ?thesis by auto
qed

lemma first_sort_key_stable:
  assumes "first (sort_key f xs) = Some x"
  shows "\<exists>pre post. xs = pre @ x # post \<and> (\<forall>y\<in>set pre. f x < f y) \<and> (\<forall>y\<in>set post. f x \<le> f y)"
proof -
  obtain rest where r: "sort_key f xs = x # rest"
    using assms by (auto simp: first_Some_iff)
  have min: "\<forall>y\<in>set xs. f x \<le> f y" using first_sort_key_min [OF assms] by simp
  have "filter (\<lambda>y. f y = f x) xs = filter (\<lambda>y. f y = f x) (x # rest)"
    using sort_key_stable [of f "f x" xs] r by simp
  then have "filter (\<lambda>y. f y = f x) xs = x # filter (\<lambda>y. f y = f x) rest" by simp
  then obtain pre post where pp: "xs = pre @ x # post" "\<forall>u\<in>set pre. f u \<noteq> f x"
    by (auto simp: filter_eq_Cons_iff)
  have "\<forall>y\<in>set pre. f x < f y"
  proof
    fix y assume y: "y \<in> set pre"
    then have "f x \<le> f y" using min pp(1) by simp
    moreover have "f y \<noteq> f x" using pp(2) y by blast
    ultimately show "f x < f y" by simp
  qed
  moreover have "\<forall>y\<in>set post. f x \<le> f y" using min pp(1) by simp
  ultimately show ?thesis using pp(1) by blast
qed

lemma first_sort_key_nonempty: "xs \<noteq> [] \<Longrightarrow> \<exists>x. first (sort_key f xs) = Some x"
proof -
  assume "xs \<noteq> []"
  then have "sort_key f xs \<noteq> []" using length_sort [of f xs] by (metis length_0_conv)
  then show ?thesis by (cases "sort_key f xs") (auto simp: first_def)
qed

lemma first_sort_key_None: "first (sort_key f xs) = None \<longleftrightarrow> xs = []"
proof -
  have "length (sort_key f xs) = length xs" by simp
  then have "sort_key f xs = [] \<longleftrightarrow> xs = []" by (metis length_0_conv)
  then show ?thesis by (simp add: first_None_iff)
qed

lemma in_titleMatches:
  "d \<in> set (titleMatches parse docs event) \<longleftrightarrow>
     d \<in> set docs \<and> within 7200000 (timeDiff parse (ev_start event) d)
       \<and> titleAgrees (trim (toLowerCase (summary event))) d"
  by (auto simp: titleMatches_def)

lemma in_timeCandidates:
  "d \<in> set (timeCandidates parse docs event) \<longleftrightarrow>
     d \<in> set docs \<and> within 1800000 (timeDiff parse (ev_start event) d)"
  by (auto simp: timeCandidates_def)

lemma findMatchingDoc_title:
  "titleMatches parse docs event \<noteq> [] \<Longrightarrow>
   findMatchingDoc parse docs event =
     first (sort_key (sortKey parse (ev_start event)) (titleMatches parse docs event))"
  by (simp add: findMatchingDoc_def byTimeDiff_def Let_def)

lemma findMatchingDoc_fallback:
  "titleMatches parse docs event = [] \<Longrightarrow>
   findMatchingDoc parse docs event =
     first (sort_key (sortKey parse (ev_start event)) (timeCandidates parse docs event))"
  by (simp add: findMatchingDoc_def byTimeDiff_def Let_def)

lemma within_sortKey:
  "within b (timeDiff parse s d) \<Longrightarrow> timeDiff parse s d = Some (sortKey parse s d)"
  by (auto simp: within_def sortKey_def split: option.splits)

text \<open>
  Claim C2. When some candidate lies within two hours of the event's start and its
  folded, trimmed title equals, contains or is contained in the event's, the matcher
  returns such a candidate, whatever closer candidates with other titles there are. Only
  when there is none does the result come from the 30-minute band: a candidate of that
  band, or nothing when the band is empty.
\<close>

theorem findMatchingDoc_title_priority:
  "(d \<in> set docs \<and> within (2 * 60 * 60 * 1000) (timeDiff parse (ev_start event) d)
      \<and> titleAgrees (trim (toLowerCase (summary event))) d
    \<longrightarrow> (\<exists>r. findMatchingDoc parse docs event = Some r \<and> r \<in> set docs
          \<and> within (2 * 60 * 60 * 1000) (timeDiff parse (ev_start event) r)
          \<and> titleAgrees (trim (toLowerCase (summary event))) r))
   \<and> ((\<forall>c\<in>set docs. \<not> (within (2 * 60 * 60 * 1000) (timeDiff parse (ev_start event) c)
          \<and> titleAgrees (trim (toLowerCase (summary event))) c))
    \<longrightarrow> (case findMatchingDoc parse docs event of
           None \<Rightarrow> \<forall>c\<in>set docs. \<not> within (30 * 60 * 1000) (timeDiff parse (ev_start event) c)
         | Some r \<Rightarrow> r \<in> set docs \<and> within (30 * 60 * 1000) (timeDiff parse (ev_start event) r)))"
proof (intro conjI impI)
  assume d: "d \<in> set docs \<and> within (2 * 60 * 60 * 1000) (timeDiff parse (ev_start event) d)
      \<and> titleAgrees (trim (toLowerCase (summary event))) d"
  then have "d \<in> set (titleMatches parse docs event)" by (simp add: in_titleMatches)
  then have ne: "titleMatches parse docs event \<noteq> []" by auto
  then obtain r where r: "first (sort_key (sortKey parse (ev_start event)) (titleMatches parse docs event)) = Some r"
    using first_sort_key_nonempty by blast
  then have "r \<in> set (titleMatches parse docs event)" by (simp add: first_sort_key_min)
  then show "\<exists>r. findMatchingDoc parse docs event = Some r \<and> r \<in> set docs
          \<and> within (2 * 60 * 60 * 1000) (timeDiff parse (ev_start event) r)
          \<and> titleAgrees (trim (toLowerCase (summary event))) r"
    using r ne by (simp add: findMatchingDoc_title in_titleMatches)
next
  assume none: "\<forall>c\<in>set docs. \<not> (within (2 * 60 * 60 * 1000) (timeDiff parse (ev_start event) c)
          \<and> titleAgrees (trim (toLowerCase (summary event))) c)"
  have e: "titleMatches parse docs event = []"
    using none by (auto simp: titleMatches_def filter_empty_conv)
  show "case findMatchingDoc parse docs event of
           None \<Rightarrow> \<forall>c\<in>set docs. \<not> within (30 * 60 * 1000) (timeDiff parse (ev_start event) c)
         | Some r \<Rightarrow> r \<in> set docs \<and> within (30 * 60 * 1000) (timeDiff parse (ev_start event) r)"
  proof (cases "findMatchingDoc parse docs event")
    case None
    then have "timeCandidates parse docs event = []"
      using e by (simp add: findMatchingDoc_fallback first_sort_key_None)
    then have "\<forall>c\<in>set docs. c \<notin> set (timeCandidates parse docs event)" by simp
    then show ?thesis using None by (simp add: in_timeCandidates)
  next
    case (Some r)
    then have "r \<in> set (timeCandidates parse docs event)"
      using e by (simp add: findMatchingDoc_fallback first_sort_key_min)
    then show ?thesis using Some by (simp add: in_timeCandidates)
  qed
qed

theorem findMatchingDoc_title_priority_witness:
  "(let docs = [mkDoc ''d1'' ''sprint planning'' ''T+10m'', mkDoc ''d2'' ''Random Sync'' ''T+5m''];
        d = mkDoc ''d1'' ''sprint planning'' ''T+10m''
    in d \<in> set docs \<and> within (2 * 60 * 60 * 1000) (timeDiff minuteClock (ev_start sprintEvent) d)
       \<and> titleAgrees (trim (toLowerCase (summary sprintEvent))) d
       \<and> findMatchingDoc minuteClock docs sprintEvent = Some d)
   \<and> (let docs = [mkDoc ''d3'' ''Roadmap'' ''T+40m'', mkDoc ''d4'' ''Retro'' ''T+20m'']
      in (\<forall>c\<in>set docs. \<not> (within (2 * 60 * 60 * 1000) (timeDiff minuteClock (ev_start sprintEvent) c)
            \<and> titleAgrees (trim (toLowerCase (summary sprintEvent))) c))
        \<and> findMatchingDoc minuteClock docs sprintEvent = Some (mkDoc ''d4'' ''Retro'' ''T+20m''))"
proof -
  let ?d = "mkDoc ''d1'' ''sprint planning'' ''T+10m''"
  let ?docs = "[?d, mkDoc ''d2'' ''Random Sync'' ''T+5m'']"
  let ?docs' = "[mkDoc ''d3'' ''Roadmap'' ''T+40m'', mkDoc ''d4'' ''Retro'' ''T+20m'']"
  have h1: "?d \<in> set ?docs \<and> within (2 * 60 * 60 * 1000) (timeDiff minuteClock (ev_start sprintEvent) ?d)
       \<and> titleAgrees (trim (toLowerCase (summary sprintEvent))) ?d"
    by code_simp
  have h2: "\<forall>c\<in>set ?docs'. \<not> (within (2 * 60 * 60 * 1000) (timeDiff minuteClock (ev_start sprintEvent) c)
            \<and> titleAgrees (trim (toLowerCase (summary sprintEvent))) c)"
    by code_simp
  have r1: "findMatchingDoc minuteClock ?docs sprintEvent = Some ?d" by code_simp
  have r2: "findMatchingDoc minuteClock ?docs' sprintEvent = Some (mkDoc ''d4'' ''Retro'' ''T+20m'')"
    by code_simp
  from findMatchingDoc_title_priority [of ?d ?docs minuteClock sprintEvent] h1
  have "\<exists>r. findMatchingDoc minuteClock ?docs sprintEvent = Some r \<and> r \<in> set ?docs
          \<and> within (2 * 60 * 60 * 1000) (timeDiff minuteClock (ev_start sprintEvent) r)
          \<and> titleAgrees (trim (toLowerCase (summary sprintEvent))) r"
    by blast
  moreover from findMatchingDoc_title_priority [of ?d ?docs' minuteClock sprintEvent] h2
  have "case findMatchingDoc minuteClock ?docs' sprintEvent of
           None \<Rightarrow> \<forall>c\<in>set ?docs'. \<not> within (30 * 60 * 1000) (timeDiff minuteClock (ev_start sprintEvent) c)
         | Some r \<Rightarrow> r \<in> set ?docs' \<and> within (30 * 60 * 1000) (timeDiff minuteClock (ev_start sprintEvent) r)"
    by blast
  ultimately show ?thesis using h1 h2 r1 r2 by (simp add: Let_def)
qed

lemma titleMatches_diff:
  "y \<in> set (titleMatches parse docs event) \<Longrightarrow>
     timeDiff parse (ev_start event) y = Some (sortKey parse (ev_start event) y)"
  by (auto simp: in_titleMatches intro: within_sortKey)

text \<open>
  Claim C4. In the title step the matcher returns a survivor with the least absolute
  difference to the event's start. Among survivors with the same least difference it
  returns the one that comes first in the candidate list: every survivor before the
  result is strictly farther, every survivor after it is at least as far.
\<close>

theorem findMatchingDoc_closest_first:
  assumes "titleMatches parse docs event \<noteq> []"
  shows "\<exists>r pre post. findMatchingDoc parse docs event = Some r
      \<and> titleMatches parse docs event = pre @ r # post
      \<and> (\<forall>y\<in>set (titleMatches parse docs event).
            timeDiff parse (ev_start event) y = Some (sortKey parse (ev_start event) y))
      \<and> (\<forall>y\<in>set pre. sortKey parse (ev_start event) r < sortKey parse (ev_start event) y)
      \<and> (\<forall>y\<in>set post. sortKey parse (ev_start event) r \<le> sortKey parse (ev_start event) y)"
proof -
  let ?f = "sortKey parse (ev_start event)"
  let ?ms = "titleMatches parse docs event"
  obtain r where r: "first (sort_key ?f ?ms) = Some r"
    using assms first_sort_key_nonempty by blast
  obtain pre post where pp: "?ms = pre @ r # post" "\<forall>y\<in>set pre. ?f r < ?f y"
      "\<forall>y\<in>set post. ?f r \<le> ?f y"
    using first_sort_key_stable [OF r] by blast
  have "findMatchingDoc parse docs event = Some r"
    using assms r by (simp add: findMatchingDoc_title)
  moreover have "\<forall>y\<in>set ?ms. timeDiff parse (ev_start event) y = Some (?f y)"
    by (simp add: titleMatches_diff)
  ultimately show ?thesis using pp by blast
qed

theorem findMatchingDoc_closest_first_witness:
  "titleMatches minuteClock [mkDoc ''late'' ''Sprint Planning'' ''T+10m'',
        mkDoc ''early'' ''Sprint Planning'' ''T-10m''] sprintEvent \<noteq> []
   \<and> findMatchingDoc minuteClock [mkDoc ''late'' ''Sprint Planning'' ''T+10m'',
        mkDoc ''early'' ''Sprint Planning'' ''T-10m''] sprintEvent
      = Some (mkDoc ''late'' ''Sprint Planning'' ''T+10m'')"
proof -
  let ?docs = "[mkDoc ''late'' ''Sprint Planning'' ''T+10m'', mkDoc ''early'' ''Sprint Planning'' ''T-10m'']"
  have ne: "titleMatches minuteClock ?docs sprintEvent \<noteq> []" by code_simp
  have tm: "titleMatches minuteClock ?docs sprintEvent = ?docs" by code_simp
  have k: "sortKey minuteClock (ev_start sprintEvent) (mkDoc ''late'' ''Sprint Planning'' ''T+10m'') = 600000"
     "sortKey minuteClock (ev_start sprintEvent) (mkDoc ''early'' ''Sprint Planning'' ''T-10m'') = 600000"
    by code_simp+
  have neq: "mkDoc ''late'' ''Sprint Planning'' ''T+10m'' \<noteq> mkDoc ''early'' ''Sprint Planning'' ''T-10m''"
    by (simp add: mkDoc_def)
  obtain r pre post where rp: "findMatchingDoc minuteClock ?docs sprintEvent = Some r"
      "?docs = pre @ r # post"
      "\<forall>y\<in>set pre. sortKey minuteClock (ev_start sprintEvent) r < sortKey minuteClock (ev_start sprintEvent) y"
    using findMatchingDoc_closest_first [OF ne] tm by auto
  have "pre = []"
  proof (cases pre)
    case Nil then show ?thesis .
  next
    case (Cons p ps)
    then have "p = mkDoc ''late'' ''Sprint Planning'' ''T+10m''" using rp(2) by simp
    moreover have "r \<in> set ?docs" using rp(2) by (metis in_set_conv_decomp)
    ultimately have False using rp(3) Cons k by auto
    then show ?thesis ..
  qed
  then have "r = mkDoc ''late'' ''Sprint Planning'' ''T+10m''" using rp(2) by simp
  then show ?thesis using ne rp(1) by simp
qed

text \<open>
  With two survivors at the same distance, ten minutes after and ten minutes before the
  start, the one listed first is returned although it was created later.
\<close>

theorem findMatchingDoc_tie_counterexample:
  "findMatchingDoc minuteClock [mkDoc ''late'' ''Sprint Planning'' ''T+10m'',
        mkDoc ''early'' ''Sprint Planning'' ''T-10m''] sprintEvent
      = Some (mkDoc ''late'' ''Sprint Planning'' ''T+10m'')
   \<and> timeDiff minuteClock (ev_start sprintEvent) (mkDoc ''late'' ''Sprint Planning'' ''T+10m'') = Some 600000
   \<and> timeDiff minuteClock (ev_start sprintEvent) (mkDoc ''early'' ''Sprint Planning'' ''T-10m'') = Some 600000
   \<and> minuteClock ''T-10m'' = Some (- 600000) \<and> minuteClock ''T+10m'' = Some 600000"
  by code_simp

text \<open>
  Claim C10. Both windows are strict. Whatever the matcher returns lies strictly within
  two hours with an agreeing title, or strictly within thirty minutes. A candidate at
  exactly two hours is not in the title band and is never returned; a candidate at
  exactly thirty minutes is not in the fallback band and is not returned unless its
  title agrees.
\<close>

theorem findMatchingDoc_strict_windows:
  "(findMatchingDoc parse docs event = Some r \<longrightarrow>
      (\<exists>t. parse (created_at r) = Some t
         \<and> ((\<bar>t - ev_start event\<bar> < 2 * 60 * 60 * 1000 \<and> titleAgrees (trim (toLowerCase (summary event))) r)
            \<or> \<bar>t - ev_start event\<bar> < 30 * 60 * 1000)))
   \<and> (parse (created_at d) = Some t \<and> \<bar>t - ev_start event\<bar> = 2 * 60 * 60 * 1000 \<longrightarrow>
        d \<notin> set (titleMatches parse docs event) \<and> findMatchingDoc parse docs event \<noteq> Some d)
   \<and> (parse (created_at d) = Some t \<and> \<bar>t - ev_start event\<bar> = 30 * 60 * 1000 \<longrightarrow>
        d \<notin> set (timeCandidates parse docs event)
        \<and> (\<not> titleAgrees (trim (toLowerCase (summary event))) d \<longrightarrow> findMatchingDoc parse docs event \<noteq> Some d))"
proof -
  have res: "\<And>x. findMatchingDoc parse docs event = Some x \<Longrightarrow>
      x \<in> set (titleMatches parse docs event) \<or> x \<in> set (timeCandidates parse docs event)"
  proof -
    fix x assume x: "findMatchingDoc parse docs event = Some x"
    show "x \<in> set (titleMatches parse docs event) \<or> x \<in> set (timeCandidates parse docs event)"
    proof (cases "titleMatches parse docs event = []")
      case True
      then show ?thesis using x by (simp add: findMatchingDoc_fallback first_sort_key_min)
    next
      case False
      then show ?thesis using x by (simp add: findMatchingDoc_title first_sort_key_min)
    qed
  qed
  have band: "\<And>b x. within b (timeDiff parse (ev_start event) x) \<longleftrightarrow>
      (\<exists>u. parse (created_at x) = Some u \<and> \<bar>u - ev_start event\<bar> < b)"
    by (auto simp: within_def timeDiff_def split: option.splits)
  have a: "findMatchingDoc parse docs event = Some r \<longrightarrow>
      (\<exists>t. parse (created_at r) = Some t
         \<and> ((\<bar>t - ev_start event\<bar> < 2 * 60 * 60 * 1000 \<and> titleAgrees (trim (toLowerCase (summary event))) r)
            \<or> \<bar>t - ev_start event\<bar> < 30 * 60 * 1000))"
    using res [of r] by (auto simp: in_titleMatches in_timeCandidates band)
  have b: "parse (created_at d) = Some t \<and> \<bar>t - ev_start event\<bar> = 2 * 60 * 60 * 1000 \<longrightarrow>
        d \<notin> set (titleMatches parse docs event) \<and> findMatchingDoc parse docs event \<noteq> Some d"
    using res [of d] by (auto simp: in_titleMatches in_timeCandidates band)
  have c: "parse (created_at d) = Some t \<and> \<bar>t - ev_start event\<bar> = 30 * 60 * 1000 \<longrightarrow>
        d \<notin> set (timeCandidates parse docs event)
        \<and> (\<not> titleAgrees (trim (toLowerCase (summary event))) d \<longrightarrow> findMatchingDoc parse docs event \<noteq> Some d)"
    using res [of d] by (auto simp: in_titleMatches in_timeCandidates band)
  show ?thesis using a b c by blast
qed

theorem findMatchingDoc_strict_windows_witness:
  "minuteClock ''T+2h'' = Some 7200000 \<and> \<bar>7200000 - ev_start sprintEvent\<bar> = 2 * 60 * 60 * 1000
   \<and> titleAgrees (trim (toLowerCase (summary sprintEvent))) (mkDoc ''d5'' ''Sprint Planning'' ''T+2h'')
   \<and> findMatchingDoc minuteClock [mkDoc ''d5'' ''Sprint Planning'' ''T+2h''] sprintEvent = None
   \<and> minuteClock ''T+30m'' = Some 1800000 \<and> \<bar>1800000 - ev_start sprintEvent\<bar> = 30 * 60 * 1000
   \<and> \<not> titleAgrees (trim (toLowerCase (summary sprintEvent))) (mkDoc ''d6'' ''Random Sync'' ''T+30m'')
   \<and> findMatchingDoc minuteClock [mkDoc ''d6'' ''Random Sync'' ''T+30m''] sprintEvent = None
   \<and> findMatchingDoc minuteClock [mkDoc ''d4'' ''Retro'' ''T+20m''] sprintEvent
       = Some (mkDoc ''d4'' ''Retro'' ''T+20m'')
   \<and> minuteClock ''T+20m'' = Some 1200000 \<and> \<bar>1200000 - ev_start sprintEvent\<bar> < 30 * 60 * 1000"
proof -
  let ?d5 = "mkDoc ''d5'' ''Sprint Planning'' ''T+2h''"
  let ?d6 = "mkDoc ''d6'' ''Random Sync'' ''T+30m''"
  let ?d4 = "mkDoc ''d4'' ''Retro'' ''T+20m''"
  have t: "minuteClock (created_at ?d5) = Some 7200000" "minuteClock (created_at ?d6) = Some 1800000"
    "minuteClock (created_at ?d4) = Some 1200000"
    "minuteClock ''T+2h'' = Some 7200000" "minuteClock ''T+30m'' = Some 1800000"
    "minuteClock ''T+20m'' = Some 1200000" "ev_start sprintEvent = 0"
    by code_simp+
  have a: "titleAgrees (trim (toLowerCase (summary sprintEvent))) ?d5"
    "\<not> titleAgrees (trim (toLowerCase (summary sprintEvent))) ?d6"
    by code_simp+
  have r: "findMatchingDoc minuteClock [?d5] sprintEvent = None"
    "findMatchingDoc minuteClock [?d6] sprintEvent = None"
    "findMatchingDoc minuteClock [?d4] sprintEvent = Some ?d4"
    by code_simp+
  show ?thesis
    using findMatchingDoc_strict_windows [of minuteClock "[?d5]" sprintEvent ?d5 ?d5 7200000]
      findMatchingDoc_strict_windows [of minuteClock "[?d6]" sprintEvent ?d6 ?d6 1800000]
      findMatchingDoc_strict_windows [of minuteClock "[?d4]" sprintEvent ?d4 ?d4 1200000]
      t a r
    by simp
qed

section \<open>Properties of the scheduler\<close>

lemma scheduleProcessing_tracked:
  "ev_id event \<in> scheduledEventIds st \<Longrightarrow> scheduleProcessing config clock event st = Inr st"
  by (simp add: scheduleProcessing_def)

lemma scheduleProcessing_done:
  "isProcessed (ev_id event) (store st) = Inr True \<Longrightarrow> scheduleProcessing config clock event st = Inr st"
  by (simp add: scheduleProcessing_def)

lemma scheduleProcessing_arms:
  "ev_id event \<notin> scheduledEventIds st \<Longrightarrow> isProcessed (ev_id event) (store st) = Inr False \<Longrightarrow>
   scheduleProcessing config clock event st =
     Inr (st\<lparr>scheduledEventIds := insert (ev_id event) (scheduledEventIds st),
             timers := timers st @ [\<lparr>delay = max (ev_end event + delayAfterMeetingMs config - clock) 30000,
                                     callback = Fire event\<rparr>]\<rparr>)"
  by (simp add: scheduleProcessing_def Let_def)

lemma scheduleProcessing_twice:
  assumes "scheduleProcessing config clock event st = Inr st1" and "ev_id event' = ev_id event"
  shows "scheduleProcessing config clock' event' st1 = Inr st1"
  using assms
  by (auto simp: scheduleProcessing_def Let_def split: if_splits sum.splits)

lemma fire_total: "\<exists>st'. fire w event st = Inr st'"
  by (auto simp: fire_def split: sum.splits prod.splits)

text \<open>
  Arming keeps the invariant in the states where every pending timer's event id is
  tracked: the check of the tracked set then sees every live task.
\<close>

lemma scheduleProcessing_keeps_tracked_tasks:
  assumes "set (taskIds (timers st)) \<subseteq> scheduledEventIds st" and "oneTaskPerId st"
    and "scheduleProcessing config clock event st = Inr st'"
  shows "oneTaskPerId st' \<and> set (taskIds (timers st')) \<subseteq> scheduledEventIds st'"
  using assms
  by (auto simp: scheduleProcessing_def Let_def oneTaskPerId_def taskIds_def image_subset_iff
      split: if_splits sum.splits)

text \<open>
  Claim C3. The invariant of at most one live task per event id is not preserved. A
  refresh arms the event and the next refresh changes nothing, as claimed. The not-ready
  branch of the first callback then untracks the event while its retry timer is
  pending. The refresh that falls in that window arms the event again, so a retry timer
  and a first-callback timer are pending for the same id. When they have run, with the
  notes still not ready, two first-callback timers are pending for that id.
\<close>

theorem arm_beside_retry:
  "refreshSchedule defaultConfig 360000 workCalendar idle = Inr (Listed 1, armedLate)
   \<and> refreshSchedule defaultConfig 2160000 workCalendar armedLate = Inr (Listed 1, armedLate)
   \<and> elapse defaultConfig (notReadyWorld 3900000) 0 armedLate = Inr retryPending
   \<and> oneTaskPerId armedLate \<and> oneTaskPerId retryPending
   \<and> refreshSchedule defaultConfig 3960000 workCalendar retryPending = Inr (Listed 1, bothPending)
   \<and> \<not> oneTaskPerId bothPending
   \<and> run defaultConfig
        [(notReadyWorld 3990000, 1), (notReadyWorld 4020000, 0), (notReadyWorld 4110000, 0)] bothPending
      = Inr \<lparr>scheduledEventIds = {''101''}, store = \<lparr>stateFile = Missing, writable = True\<rparr>,
          timers = [\<lparr>delay = 300000, callback = Fire (sprintEvent\<lparr>ev_end := 4020000\<rparr>)\<rparr>,
                    \<lparr>delay = 300000, callback = Fire (sprintEvent\<lparr>ev_end := 4110000\<rparr>)\<rparr>],
          pipelineCalls = []\<rparr>"
  by code_simp

text \<open>
  Claim C7. A timer set by \<open>scheduleProcessing\<close> never has a delay below 30 seconds,
  and for an untracked, unprocessed event whose trigger time is in the past the delay
  is exactly 30 seconds.
\<close>

theorem scheduleProcessing_floor:
  "(scheduleProcessing config clock event st = Inr st' \<longrightarrow>
      timers st' = timers st
      \<or> (\<exists>d. d \<ge> 30000 \<and> timers st' = timers st @ [\<lparr>delay = d, callback = Fire event\<rparr>]))
   \<and> (ev_end event + delayAfterMeetingMs config < clock \<and> ev_id event \<notin> scheduledEventIds st
        \<and> isProcessed (ev_id event) (store st) = Inr False \<longrightarrow>
      (\<exists>st1. scheduleProcessing config clock event st = Inr st1
         \<and> timers st1 = timers st @ [\<lparr>delay = 30000, callback = Fire event\<rparr>]))"
  by (auto simp: scheduleProcessing_def Let_def split: if_splits sum.splits)

theorem scheduleProcessing_floor_witness:
  "ev_end sprintEvent + delayAfterMeetingMs defaultConfig < 9000000
   \<and> scheduleProcessing defaultConfig 9000000 sprintEvent idle =
       Inr \<lparr>scheduledEventIds = {''101''}, store = \<lparr>stateFile = Missing, writable = True\<rparr>,
         timers = [\<lparr>delay = 30000, callback = Fire sprintEvent\<rparr>], pipelineCalls = []\<rparr>"
proof -
  have h: "ev_end sprintEvent + delayAfterMeetingMs defaultConfig < 9000000"
    "ev_id sprintEvent \<notin> scheduledEventIds idle"
    "isProcessed (ev_id sprintEvent) (store idle) = Inr False"
    by code_simp+
  have r: "scheduleProcessing defaultConfig 9000000 sprintEvent idle =
       Inr \<lparr>scheduledEventIds = {''101''}, store = \<lparr>stateFile = Missing, writable = True\<rparr>,
         timers = [\<lparr>delay = 30000, callback = Fire sprintEvent\<rparr>], pipelineCalls = []\<rparr>"
    by code_simp
  show ?thesis
    using scheduleProcessing_floor [of defaultConfig 9000000 sprintEvent idle] h r by simp
qed

lemma fireTry_pipeline_throws:
  assumes "fetchDocuments w = Inr docs"
    and "findMatchingDoc (getTime w) docs event = Some doc"
    and "isProcessed (doc_id doc) (store st) = Inr False"
    and "fetchMeeting w doc = Inr meeting"
    and "notesMarkdown meeting \<noteq> [] \<or> transcript meeting \<noteq> []"
    and "processMeeting w meeting = Inl e"
  shows "fireTry w event st = Inl (e, st\<lparr>pipelineCalls := pipelineCalls st @ [meeting]\<rparr>)"
  using assms by (auto simp: fireTry_def Let_def)

text \<open>
  Claim C9. When the pipeline throws, the callback's promise still resolves: the event's
  id leaves the tracked set, the dedup store and the timers are as before, and an event
  that was not processed before can be armed again.
\<close>

theorem fire_pipeline_failure:
  assumes "fetchDocuments w = Inr docs"
    and "findMatchingDoc (getTime w) docs event = Some doc"
    and "isProcessed (doc_id doc) (store st) = Inr False"
    and "fetchMeeting w doc = Inr meeting"
    and "notesMarkdown meeting \<noteq> [] \<or> transcript meeting \<noteq> []"
    and "processMeeting w meeting = Inl e"
  shows "\<exists>st'. fire w event st = Inr st'
      \<and> scheduledEventIds st' = scheduledEventIds st - {ev_id event}
      \<and> store st' = store st
      \<and> timers st' = timers st
      \<and> pipelineCalls st' = pipelineCalls st @ [meeting]
      \<and> (isProcessed (ev_id event) (store st) = Inr False \<longrightarrow>
           (\<exists>d. scheduleProcessing config clock event st' =
              Inr (st'\<lparr>scheduledEventIds := insert (ev_id event) (scheduledEventIds st'),
                       timers := timers st' @ [\<lparr>delay = d, callback = Fire event\<rparr>]\<rparr>)))"
proof -
  let ?st' = "st\<lparr>pipelineCalls := pipelineCalls st @ [meeting],
                 scheduledEventIds := scheduledEventIds st - {ev_id event}\<rparr>"
  have f: "fire w event st = Inr ?st'"
    using fireTry_pipeline_throws [OF assms] by (simp add: fire_def)
  have "isProcessed (ev_id event) (store st) = Inr False \<longrightarrow>
      (\<exists>d. scheduleProcessing config clock event ?st' =
              Inr (?st'\<lparr>scheduledEventIds := insert (ev_id event) (scheduledEventIds ?st'),
                       timers := timers ?st' @ [\<lparr>delay = d, callback = Fire event\<rparr>]\<rparr>))"
    using scheduleProcessing_arms [of event ?st' config clock] by auto
  then show ?thesis using f by simp
qed

theorem fire_pipeline_failure_witness:
  "processMeeting (failingWorld 3900000)
       (meetingOf ''# Notes'' [] (mkDoc ''d1'' ''sprint planning'' ''T+10m'')) = Inl PipelineError
   \<and> (\<exists>st'. fire (failingWorld 3900000) sprintEvent tracked101 = Inr st'
      \<and> ''101'' \<notin> scheduledEventIds st'
      \<and> store st' = \<lparr>stateFile = Missing, writable = True\<rparr>
      \<and> isProcessed ''101'' (store st') = Inr False
      \<and> isProcessed ''d1'' (store st') = Inr False
      \<and> (\<exists>d. timers (projr (scheduleProcessing defaultConfig 3900000 sprintEvent st')) =
             [\<lparr>delay = d, callback = Fire sprintEvent\<rparr>]))"
proof -
  let ?w = "failingWorld 3900000"
  let ?doc = "mkDoc ''d1'' ''sprint planning'' ''T+10m''"
  let ?m = "meetingOf ''# Notes'' [] ?doc"
  have h1: "fetchDocuments ?w = Inr [?doc]" by (simp add: failingWorld_def)
  have h2: "findMatchingDoc (getTime ?w) [?doc] sprintEvent = Some ?doc" by code_simp
  have h3: "isProcessed (doc_id ?doc) (store tracked101) = Inr False" by code_simp
  have h4: "fetchMeeting ?w ?doc = Inr ?m" by (simp add: failingWorld_def)
  have h5: "notesMarkdown ?m \<noteq> [] \<or> transcript ?m \<noteq> []" by (simp add: meetingOf_def)
  have h6: "processMeeting ?w ?m = Inl PipelineError" by (simp add: failingWorld_def)
  have h7: "isProcessed (ev_id sprintEvent) (store tracked101) = Inr False" by code_simp
  have s: "store tracked101 = \<lparr>stateFile = Missing, writable = True\<rparr>"
    "timers tracked101 = []" "ev_id sprintEvent = ''101''" "doc_id ?doc = ''d1''"
    by (simp_all add: tracked101_def sprintEvent_def mkDoc_def)
  from fire_pipeline_failure [OF h1 h2 h3 h4 h5 h6, of defaultConfig 3900000] h7
  obtain st' d where st': "fire ?w sprintEvent tracked101 = Inr st'"
      "scheduledEventIds st' = scheduledEventIds tracked101 - {ev_id sprintEvent}"
      "store st' = store tracked101" "timers st' = timers tracked101"
      "scheduleProcessing defaultConfig 3900000 sprintEvent st' =
         Inr (st'\<lparr>scheduledEventIds := insert (ev_id sprintEvent) (scheduledEventIds st'),
                  timers := timers st' @ [\<lparr>delay = d, callback = Fire sprintEvent\<rparr>]\<rparr>)"
    by blast
  have "''101'' \<notin> scheduledEventIds st'" using st'(2) s by simp
  moreover have "timers (projr (scheduleProcessing defaultConfig 3900000 sprintEvent st')) =
             [\<lparr>delay = d, callback = Fire sprintEvent\<rparr>]"
    using st'(4,5) s by simp
  ultimately show ?thesis using st'(1,3) h3 h6 h7 s by auto
qed

text \<open>
  Claim C1. The retry is not bounded. With a matched document that stays empty, the
  first callback sets the retry timer, the retry arms the event again, and the callback
  of that second arming sets a retry timer once more; the store stays untouched.
\<close>

theorem retry_unbounded:
  "run defaultConfig
     [(notReadyWorld 3900000, 0), (notReadyWorld 4020000, 0), (notReadyWorld 4320000, 0)] armedOnce
   = Inr \<lparr>scheduledEventIds = {}, store = \<lparr>stateFile = Missing, writable = True\<rparr>,
       timers = [\<lparr>delay = 120000, callback = Retry (sprintEvent\<lparr>ev_end := 4020000\<rparr>)\<rparr>],
       pipelineCalls = []\<rparr>"
  by code_simp

section \<open>Properties of the calendar source\<close>

text \<open>
  Claim C5. When one of the two database files exists, \<open>fetchTodaysEvents\<close> resolves,
  and with the empty list when the query fails on the database and the copy or the
  query on the copy fails too. When neither file exists, it rejects with the error of
  \<open>getDbPath\<close>; \<open>refreshSchedule\<close> catches that error and logs it, and leaves the
  scheduler as it was.
\<close>

theorem fetchTodaysEvents_degrades:
  "(groupDbExists host \<or> legacyDbExists host \<longrightarrow>
      (\<exists>events. fetchTodaysEvents host = Inr events)
      \<and> (\<forall>path. getDbPath host = Inr path \<and> (\<exists>e. queryEvents host path = Inl e)
            \<and> ((\<exists>e. cp host path = Inl e) \<or> (\<exists>e. queryEvents host TmpCopy = Inl e))
          \<longrightarrow> fetchTodaysEvents host = Inr []))
   \<and> (\<not> groupDbExists host \<and> \<not> legacyDbExists host \<longrightarrow>
        fetchTodaysEvents host = Inl DbNotFound
        \<and> refreshSchedule config clock host st = Inr (RefreshFailed DbNotFound, st))"
  by (auto simp: refreshSchedule_def fetchTodaysEvents_def getDbPath_def split: sum.splits)

theorem fetchTodaysEvents_degrades_witness:
  "groupDbExists lockedCalendar \<and> getDbPath lockedCalendar = Inr GroupContainerDb
   \<and> queryEvents lockedCalendar GroupContainerDb = Inl QueryFailed
   \<and> cp lockedCalendar GroupContainerDb = Inl CopyFailed
   \<and> fetchTodaysEvents lockedCalendar = Inr []
   \<and> \<not> groupDbExists noCalendar \<and> \<not> legacyDbExists noCalendar
   \<and> fetchTodaysEvents noCalendar = Inl DbNotFound
   \<and> refreshSchedule defaultConfig 0 noCalendar idle = Inr (RefreshFailed DbNotFound, idle)"
proof -
  have h: "groupDbExists lockedCalendar" "getDbPath lockedCalendar = Inr GroupContainerDb"
    "queryEvents lockedCalendar GroupContainerDb = Inl QueryFailed"
    "cp lockedCalendar GroupContainerDb = Inl CopyFailed"
    by (simp_all add: lockedCalendar_def getDbPath_def queryEvents_def runQuery_def)
  have n: "\<not> groupDbExists noCalendar" "\<not> legacyDbExists noCalendar"
    by (simp_all add: noCalendar_def)
  show ?thesis
    using fetchTodaysEvents_degrades [of lockedCalendar]
      fetchTodaysEvents_degrades [of noCalendar defaultConfig 0 idle] h n
    by auto
qed

text \<open>With no database file the call rejects; it does not return the empty list.\<close>

theorem fetchTodaysEvents_missing_db_counterexample:
  "fetchTodaysEvents noCalendar = Inl DbNotFound \<and> fetchTodaysEvents noCalendar \<noteq> Inr []"
  by (simp add: fetchTodaysEvents_def getDbPath_def noCalendar_def)

end
